theory Spec2Isabelle
  imports Complex_Main "HOL-Library.Char_ord" "HOL-Library.List_Lexorder"
begin

section \<open>Python values used by the conversion service\<close>

text \<open>
  The service in \<^verbatim>\<open>app/services/video_conversion.py\<close> computes with Python integers,
  Python and NumPy floats, strings and dictionaries. Integers are \<^typ>\<open>int\<close>. A finite
  float is represented by the rational number it denotes, and arithmetic on finite floats is
  exact rational arithmetic; the non-finite floats are separate constructors, because the
  code treats them differently (\<^verbatim>\<open>int(nan)\<close> raises).
\<close>

datatype npfloat = Fin rat | PosInf | NegInf | NaN

text \<open>
  An exception is its class and its message, the text \<^verbatim>\<open>str(e)\<close> returns. Only classes
  derived from \<^verbatim>\<open>Exception\<close> occur: they are what the code and its libraries raise.
  \<^verbatim>\<open>LibraryError\<close> stands for the error classes of OpenCV, PyTorch and ffmpeg-python.
\<close>

datatype exc_kind =
    ValueError
  | OverflowError
  | IndexError
  | ZeroDivisionError
  | AttributeError
  | OSError
  | LibraryError

datatype py_error = Raised exc_kind string

fun message :: "py_error \<Rightarrow> string" where
  "message (Raised k m) = m"

fun kind :: "py_error \<Rightarrow> exc_kind" where
  "kind (Raised k m) = k"

text \<open>Python's \<^verbatim>\<open>int(x)\<close> on a finite float truncates toward zero.\<close>

definition py_trunc :: "rat \<Rightarrow> int" where
  "py_trunc q = (if q < 0 then \<lceil>q\<rceil> else \<lfloor>q\<rfloor>)"

definition py_int :: "npfloat \<Rightarrow> py_error + int" where
  "py_int v = (case v of
       Fin q \<Rightarrow> Inr (py_trunc q)
     | NaN \<Rightarrow> Inl (Raised ValueError ''cannot convert float NaN to integer'')
     | PosInf \<Rightarrow> Inl (Raised OverflowError ''cannot convert float infinity to integer'')
     | NegInf \<Rightarrow> Inl (Raised OverflowError ''cannot convert float infinity to integer''))"

text \<open>Decimal rendering of an integer, as \<^verbatim>\<open>str\<close> and f-strings produce it.\<close>

definition digit_char :: "nat \<Rightarrow> char" where
  "digit_char d = ''0123456789'' ! d"

function str_nat :: "nat \<Rightarrow> string" where
  "str_nat n = (if n < 10 then [digit_char n] else str_nat (n div 10) @ [digit_char (n mod 10)])"
  by pat_completeness auto
termination
  by (relation "measure id") auto

declare str_nat.simps [simp del]

definition str_int :: "int \<Rightarrow> string" where
  "str_int i = (if i < 0 then ''-'' @ str_nat (nat (- i)) else str_nat (nat i))"

text \<open>\<^verbatim>\<open>d.get(k, default)\<close> on a dictionary literal.\<close>

definition dict_get :: "('k \<times> 'v) list \<Rightarrow> 'k \<Rightarrow> 'v \<Rightarrow> 'v" where
  "dict_get d k dflt = (case map_of d k of None \<Rightarrow> dflt | Some v \<Rightarrow> v)"


text \<open>Sequencing of computations that may raise: the first error ends the computation.\<close>

definition bind_err :: "'e + 'a \<Rightarrow> ('a \<Rightarrow> 'e + 'b) \<Rightarrow> 'e + 'b" where
  "bind_err m f = (case m of Inl e \<Rightarrow> Inl e | Inr v \<Rightarrow> f v)"

text \<open>A \<^verbatim>\<open>for\<close> loop over a list of indices whose body may raise.\<close>

fun for_each :: "'i list \<Rightarrow> ('i \<Rightarrow> 's \<Rightarrow> 'e + 's) \<Rightarrow> 's \<Rightarrow> 'e + 's" where
  "for_each [] body s = Inr s"
| "for_each (i # is) body s =
     (case body i s of Inl e \<Rightarrow> Inl e | Inr s' \<Rightarrow> for_each is body s')"

text \<open>
  A two-dimensional NumPy array: its shape and its rows. An image is an array of pixels
  (the third, colour axis is inside the pixel type); a depth map is an array of floats.
\<close>

record 'a ndarray =
  nrows :: nat
  ncols :: nat
  cells :: "'a list list"

definition wf_array :: "'a ndarray \<Rightarrow> bool" where
  "wf_array a \<longleftrightarrow> length (cells a) = nrows a \<and> list_all (\<lambda>r. length r = ncols a) (cells a)"

text \<open>\<^verbatim>\<open>a[y, x]\<close> for loop indices, which are never negative.\<close>

definition index_error :: "int \<Rightarrow> nat \<Rightarrow> nat \<Rightarrow> py_error" where
  "index_error i axis n =
     Raised IndexError (''index '' @ str_int i @ '' is out of bounds for axis '' @ str_nat axis
        @ '' with size '' @ str_nat n)"

definition np_get :: "'a ndarray \<Rightarrow> nat \<Rightarrow> nat \<Rightarrow> py_error + 'a" where
  "np_get a y x =
     (if \<not> y < nrows a then Inl (index_error (int y) 0 (nrows a))
      else if \<not> x < ncols a then Inl (index_error (int x) 1 (ncols a))
      else Inr (cells a ! y ! x))"

text \<open>
  \<^verbatim>\<open>a[y, j] = v\<close> where the column \<open>j\<close> is a computed integer: NumPy counts a negative
  column from the end of the row and raises when the column is out of range either way.
\<close>

definition np_set :: "'a ndarray \<Rightarrow> nat \<Rightarrow> int \<Rightarrow> 'a \<Rightarrow> py_error + 'a ndarray" where
  "np_set a y j v =
     (let n = int (ncols a); k = (if j < 0 then j + n else j)
      in if \<not> y < nrows a then Inl (index_error (int y) 0 (nrows a))
         else if \<not> (0 \<le> k \<and> k < n) then Inl (index_error j 1 (ncols a))
         else Inr (a\<lparr>cells := (cells a)[y := (cells a ! y)[nat k := v]]\<rparr>))"

text \<open>A float times a Python integer.\<close>

definition np_mul_int :: "npfloat \<Rightarrow> int \<Rightarrow> npfloat" where
  "np_mul_int v m = (case v of
       Fin q \<Rightarrow> Fin (q * of_int m)
     | NaN \<Rightarrow> NaN
     | PosInf \<Rightarrow> (if 0 < m then PosInf else if m < 0 then NegInf else NaN)
     | NegInf \<Rightarrow> (if 0 < m then NegInf else if m < 0 then PosInf else NaN))"

text \<open>\<^verbatim>\<open>np.hstack([l, r])\<close> and \<^verbatim>\<open>np.vstack([l, r])\<close> on two arrays of the same shape.\<close>

definition hstack :: "'a ndarray \<Rightarrow> 'a ndarray \<Rightarrow> 'a ndarray" where
  "hstack l r = \<lparr>nrows = nrows l, ncols = ncols l + ncols r,
                 cells = map (\<lambda>(a, b). a @ b) (zip (cells l) (cells r))\<rparr>"

definition vstack :: "'a ndarray \<Rightarrow> 'a ndarray \<Rightarrow> 'a ndarray" where
  "vstack l r = \<lparr>nrows = nrows l + nrows r, ncols = ncols l, cells = cells l @ cells r\<rparr>"


section \<open>Encoder parameters\<close>

definition resolutions :: "(string \<times> (int \<times> int)) list" where
  "resolutions = [(''720p'', (1280, 720)), (''1080p'', (1920, 1080)),
                  (''1440p'', (2560, 1440)), (''4K'', (3840, 2160))]"

definition get_output_resolution :: "string \<Rightarrow> int \<times> int" where
  "get_output_resolution resolution = dict_get resolutions resolution (1920, 1080)"

definition base_bitrates :: "(string \<times> int) list" where
  "base_bitrates = [(''low'', 1000), (''medium'', 2500), (''high'', 5000), (''ultra'', 10000)]"

definition get_bitrate :: "string \<Rightarrow> int \<Rightarrow> int \<Rightarrow> string" where
  "get_bitrate quality width height =
     (let base_bitrate = dict_get base_bitrates quality 2500;
          resolution_factor = (of_int (width * height) :: rat) / of_int (1920 * 1080)
      in str_int (py_trunc (of_int base_bitrate * resolution_factor)) @ ''k'')"

text \<open>
  The two lines of \<^verbatim>\<open>_generate_vr180_video\<close> that resolve the settings: the dimensions
  come from the resolution, the bitrate from the quality and those dimensions.
\<close>

definition resolve_bitrate :: "string \<Rightarrow> string \<Rightarrow> string" where
  "resolve_bitrate quality resolution =
     (case get_output_resolution resolution of
        (output_width, output_height) \<Rightarrow> get_bitrate quality output_width output_height)"

text \<open>The tables and the formula in the words of the specification (rounding to nearest).\<close>

definition spec_dimensions :: "string \<Rightarrow> int \<times> int" where
  "spec_dimensions r =
     (if r = ''720p'' then (1280, 720)
      else if r = ''1080p'' then (1920, 1080)
      else if r = ''1440p'' then (2560, 1440)
      else if r = ''4K'' then (3840, 2160)
      else (1920, 1080))"

definition spec_base_bitrate :: "string \<Rightarrow> int" where
  "spec_base_bitrate q =
     (if q = ''low'' then 1000
      else if q = ''medium'' then 2500
      else if q = ''high'' then 5000
      else if q = ''ultra'' then 10000
      else 2500)"

definition scaled_bitrate :: "string \<Rightarrow> string \<Rightarrow> rat" where
  "scaled_bitrate q r =
     of_int (spec_base_bitrate q)
       * (of_int (fst (spec_dimensions r) * snd (spec_dimensions r)) / of_int (1920 * 1080))"

definition spec_bitrate :: "string \<Rightarrow> string \<Rightarrow> string" where
  "spec_bitrate q r = str_int (round (scaled_bitrate q r)) @ ''k''"


section \<open>Conversion settings\<close>

record conversion_settings =
  resolution :: string
  quality :: string
  frame_rate :: "int option"
  bitrate :: "int option"
  stereo_mode :: string
  depth_estimation_model :: string


section \<open>The service and its surroundings\<close>

text \<open>
  What the service reads from outside itself during one conversion: whether the media and
  machine-learning packages could be imported, the directory \<^verbatim>\<open>tempfile\<close> hands out,
  the frame count the container declares and the frames OpenCV decodes from the source
  video (the frames \<^verbatim>\<open>cap.read()\<close> returns before it reports the end), whether the
  attribute \<^verbatim>\<open>_midas_transforms\<close> has been set on the service object, the depth model
  (transform, inference and interpolation to the size of the frame, with finite values),
  and the outcomes of the three ffmpeg calls.
\<close>

record video_metadata =
  duration :: rat
  source_width :: int
  source_height :: int
  fps :: rat
  source_bitrate :: int
  codec :: string

record 'a environment =
  dependencies_available :: bool
  mkdtemp :: "py_error + string"
  cap_frame_count :: int
  cap_frames :: "'a ndarray list"
  has_midas_transforms :: bool
  midas_depth :: "'a ndarray \<Rightarrow> py_error + rat ndarray"
  ffmpeg_encode :: "py_error option"
  ffmpeg_thumbnail :: "py_error + 'a ndarray"
  ffprobe :: "py_error + video_metadata"


section \<open>Depth estimation\<close>

text \<open>\<^verbatim>\<open>a.min()\<close> and \<^verbatim>\<open>a.max()\<close> over the values of a non-empty array.\<close>

definition np_min :: "rat list \<Rightarrow> rat" where
  "np_min vals = fold min (tl vals) (hd vals)"

definition np_max :: "rat list \<Rightarrow> rat" where
  "np_max vals = fold max (tl vals) (hd vals)"

text \<open>
  NumPy's float division: dividing by zero raises nothing (it warns); it yields an
  infinity, or NaN for \<open>0 / 0\<close>.
\<close>

definition np_div :: "rat \<Rightarrow> rat \<Rightarrow> npfloat" where
  "np_div a b =
     (if b = 0 then (if a = 0 then NaN else if 0 < a then PosInf else NegInf)
      else Fin (a / b))"

text \<open>
  The normalisation
  \<^verbatim>\<open>depth_map = (depth_map - depth_map.min()) / (depth_map.max() - depth_map.min())\<close>.
  The reductions raise on an array without elements.
\<close>

definition normalize_depth :: "rat ndarray \<Rightarrow> py_error + npfloat ndarray" where
  "normalize_depth raw =
     (let vals = concat (cells raw)
      in if vals = []
         then Inl (Raised ValueError
                ''zero-size array to reduction operation minimum which has no identity'')
         else Inr \<lparr>nrows = nrows raw, ncols = ncols raw,
                   cells = map (map (\<lambda>d. np_div (d - np_min vals) (np_max vals - np_min vals)))
                             (cells raw)\<rparr>)"

definition estimate_depth :: "'a environment \<Rightarrow> 'a ndarray \<Rightarrow> py_error + npfloat ndarray" where
  "estimate_depth env frame =
     (if \<not> has_midas_transforms env
      then Inl (Raised AttributeError
             ([CHR 0x27] @ ''VideoProcessingService'' @ [CHR 0x27]
                @ '' object has no attribute '' @ [CHR 0x27] @ ''_midas_transforms'' @ [CHR 0x27]))
      else bind_err (midas_depth env frame) normalize_depth)"

text \<open>A raw depth output that is the same at every pixel, and a frame to go with it.\<close>

definition flat_raw :: "rat ndarray" where
  "flat_raw = \<lparr>nrows = 2, ncols = 2, cells = [ [3, 3], [3, 3]]\<rparr>"

definition nan_depth :: "npfloat ndarray" where
  "nan_depth = \<lparr>nrows = 2, ncols = 2, cells = [ [NaN, NaN], [NaN, NaN]]\<rparr>"

definition small_frame :: "nat ndarray" where
  "small_frame = \<lparr>nrows = 2, ncols = 2, cells = [ [0, 1], [2, 3]]\<rparr>"


section \<open>Stereo synthesis\<close>

text \<open>
  \<^verbatim>\<open>max_shift = int(width * 0.05)\<close>. The double nearest to 0.05 lies above 0.05 by less
  than \<open>10\<^sup>-\<^sup>1\<^sup>7\<close>, and the integers are representable, so the float product truncates to the
  same integer as the exact product for every width an image can have.
\<close>

definition max_shift_of :: "nat \<Rightarrow> int" where
  "max_shift_of width = py_trunc (of_nat width * (5 / 100))"

text \<open>The body of the pixel loop of \<^verbatim>\<open>_generate_stereo_pair\<close>, on the pair of views.\<close>

definition splat_pixel ::
  "'a ndarray \<Rightarrow> npfloat ndarray \<Rightarrow> int \<Rightarrow> nat \<Rightarrow> nat
     \<Rightarrow> 'a ndarray \<times> 'a ndarray \<Rightarrow> py_error + ('a ndarray \<times> 'a ndarray)" where
  "splat_pixel frame depth_map max_shift y x views =
     (case views of (left_view, right_view) \<Rightarrow>
        bind_err (np_get depth_map y x) (\<lambda>depth_value.
        bind_err (py_int (np_mul_int depth_value max_shift)) (\<lambda>shift.
        bind_err (if int x + shift < int (ncols frame)
                  then np_set right_view y (int x + shift) (cells frame ! y ! x)
                  else Inr right_view) (\<lambda>right_view'.
        bind_err (if int x - shift \<ge> 0
                  then np_set left_view y (int x - shift) (cells frame ! y ! x)
                  else Inr left_view) (\<lambda>left_view'.
        Inr (left_view', right_view'))))))"

text \<open>Both views start as copies of the frame; the iteration goes over rows, then columns.\<close>

definition stereo_views ::
  "'a ndarray \<Rightarrow> npfloat ndarray \<Rightarrow> py_error + ('a ndarray \<times> 'a ndarray)" where
  "stereo_views frame depth_map =
     (let height = nrows frame; width = ncols frame;
          max_shift = max_shift_of width
      in for_each [0..<height]
           (\<lambda>y. for_each [0..<width] (splat_pixel frame depth_map max_shift y))
           (frame, frame))"

definition generate_stereo_pair ::
  "'a ndarray \<Rightarrow> npfloat ndarray \<Rightarrow> conversion_settings \<Rightarrow> py_error + 'a ndarray" where
  "generate_stereo_pair frame depth_map settings =
     bind_err (stereo_views frame depth_map) (\<lambda>(left_view, right_view).
       Inr (if stereo_mode settings = ''side-by-side''
            then hstack left_view right_view
            else vstack left_view right_view))"




text \<open>Shapes and value ranges assumed of the inputs of the synthesis.\<close>

definition view_ok :: "'a ndarray \<Rightarrow> 'b ndarray \<Rightarrow> bool" where
  "view_ok frame v \<longleftrightarrow> nrows v = nrows frame \<and> ncols v = ncols frame \<and> wf_array v"

definition unit_depth :: "npfloat ndarray \<Rightarrow> bool" where
  "unit_depth depth_map \<longleftrightarrow>
     list_all (list_all (\<lambda>v. case v of Fin d \<Rightarrow> 0 \<le> d \<and> d \<le> 1 | _ \<Rightarrow> False))
       (cells depth_map)"














text \<open>The default settings of the \<^verbatim>\<open>ConversionSettings\<close> model.\<close>

definition default_settings :: conversion_settings where
  "default_settings = \<lparr>resolution = ''1080p'', quality = ''high'', frame_rate = Some 30,
     bitrate = None, stereo_mode = ''side-by-side'', depth_estimation_model = ''midas''\<rparr>"


section \<open>Frame files\<close>

text \<open>
  The extractor names frame \<open>i\<close> by the f-string \<^verbatim>\<open>frame_{frame_idx:06d}.jpg\<close>: the
  decimal index, padded with zeros on the left to at least six digits. The encoder is
  given the printf pattern \<^verbatim>\<open>frame_%06d.jpg\<close>, which ffmpeg instantiates with the
  numbers 0, 1, 2, ... in turn.
\<close>

definition zero_pad :: "nat \<Rightarrow> string \<Rightarrow> string" where
  "zero_pad w s = replicate (w - length s) (CHR ''0'') @ s"

definition frame_name :: "nat \<Rightarrow> string" where
  "frame_name frame_idx = ''frame_'' @ zero_pad 6 (str_nat frame_idx) @ ''.jpg''"

definition pattern_name :: "nat \<Rightarrow> string" where
  "pattern_name i = ''frame_'' @ zero_pad 6 (str_nat i) @ ''.jpg''"

text \<open>The \<open>k\<close> low decimal digits of a number, most significant first.\<close>

fun fixed_digits :: "nat \<Rightarrow> nat \<Rightarrow> string" where
  "fixed_digits 0 n = []"
| "fixed_digits (Suc k) n = fixed_digits k (n div 10) @ [digit_char (n mod 10)]"


definition endswith :: "string \<Rightarrow> string \<Rightarrow> bool" where
  "endswith s suffix \<longleftrightarrow>
     length suffix \<le> length s \<and> drop (length s - length suffix) s = suffix"


section \<open>Files and progress reports\<close>

text \<open>
  The state a conversion acts on: the files that exist, by path, and the progress reports
  made so far, oldest first. An image file holds the image as it is read back (the loss of
  the JPEG encoding and the order of the colour channels are not modelled); a video file
  holds what the encoder was given.
\<close>

record 'a video =
  video_frames :: "'a ndarray list"
  video_width :: int
  video_height :: int
  video_bitrate :: string
  video_frame_rate :: "int option"

datatype 'a pyfile = ImageFile "'a ndarray" | VideoFile "'a video"

datatype stage_label =
    Extracting_frames
  | Processing_frames_for_VR180
  | Video_generation_completed

record 'a world =
  files :: "(string \<times> 'a pyfile) list"
  progress :: "(rat \<times> stage_label) list"

definition path_join :: "string \<Rightarrow> string \<Rightarrow> string" where
  "path_join a b = a @ ''/'' @ b"

definition under :: "string \<Rightarrow> string \<Rightarrow> bool" where
  "under d p \<longleftrightarrow> take (length d + 1) p = d @ ''/''"

definition file_exists :: "string \<Rightarrow> 'a world \<Rightarrow> bool" where
  "file_exists p w \<longleftrightarrow> map_of (files w) p \<noteq> None"

definition write_file :: "string \<Rightarrow> 'a pyfile \<Rightarrow> 'a world \<Rightarrow> 'a world" where
  "write_file p c w = w\<lparr>files := (p, c) # filter (\<lambda>e. fst e \<noteq> p) (files w)\<rparr>"

text \<open>\<^verbatim>\<open>os.listdir\<close> of a directory that holds files only; the order is that of the state.\<close>

definition listdir :: "string \<Rightarrow> 'a world \<Rightarrow> string list" where
  "listdir d w =
     map (drop (length d + 1))
       (filter (\<lambda>p. under d p \<and> CHR ''/'' \<notin> set (drop (length d + 1) p)) (map fst (files w)))"

text \<open>Leaving the \<^verbatim>\<open>with tempfile.TemporaryDirectory()\<close> block removes the directory tree.\<close>

definition rmtree :: "string \<Rightarrow> 'a world \<Rightarrow> 'a world" where
  "rmtree d w = w\<lparr>files := filter (\<lambda>e. \<not> under d (fst e)) (files w)\<rparr>"

text \<open>\<^verbatim>\<open>cv2.imread\<close> returns \<^verbatim>\<open>None\<close> where there is no image to read.\<close>

definition cv2_imread :: "string \<Rightarrow> 'a world \<Rightarrow> 'a ndarray option" where
  "cv2_imread p w = (case map_of (files w) p of Some (ImageFile img) \<Rightarrow> Some img | _ \<Rightarrow> None)"

definition report :: "rat \<Rightarrow> stage_label \<Rightarrow> 'a world \<Rightarrow> 'a world" where
  "report percentage label w = w\<lparr>progress := progress w @ [(percentage, label)]\<rparr>"

text \<open>A loop whose body acts on the state and may raise; what it did before raising stays.\<close>

fun for_each_io ::
  "'i list \<Rightarrow> ('i \<Rightarrow> 's \<Rightarrow> py_error option \<times> 's) \<Rightarrow> 's \<Rightarrow> py_error option \<times> 's" where
  "for_each_io [] body s = (None, s)"
| "for_each_io (i # is) body s =
     (case body i s of (Some e, s') \<Rightarrow> (Some e, s') | (None, s') \<Rightarrow> for_each_io is body s')"

definition enumerate_from0 :: "'b list \<Rightarrow> (nat \<times> 'b) list" where
  "enumerate_from0 xs = zip [0..<length xs] xs"


section \<open>The stages\<close>

text \<open>
  \<^verbatim>\<open>_extract_frames\<close>: every decoded frame is written under its name; then the counter
  is incremented and, with a callback, the progress \<^verbatim>\<open>(frame_idx / frame_count) * 20\<close> is
  reported, which raises when the declared frame count is zero.
\<close>

definition extract_step ::
  "int \<Rightarrow> bool \<Rightarrow> string \<Rightarrow> nat \<times> 'a ndarray \<Rightarrow> 'a world \<Rightarrow> py_error option \<times> 'a world" where
  "extract_step frame_count progress_callback frames_dir item w =
     (case item of (i, frame) \<Rightarrow>
        let w1 = write_file (path_join frames_dir (frame_name i)) (ImageFile frame) w;
            frame_idx = i + 1
        in if progress_callback
           then (if frame_count = 0
                 then (Some (Raised ZeroDivisionError ''division by zero''), w1)
                 else (None, report ((of_nat frame_idx / of_int frame_count) * 20)
                               Extracting_frames w1))
           else (None, w1))"

definition extract_frames ::
  "'a environment \<Rightarrow> bool \<Rightarrow> string \<Rightarrow> 'a world \<Rightarrow> py_error option \<times> 'a world" where
  "extract_frames env progress_callback frames_dir w =
     (let frame_count = cap_frame_count env
      in for_each_io (enumerate_from0 (cap_frames env))
           (extract_step frame_count progress_callback frames_dir) w)"

text \<open>
  \<^verbatim>\<open>_process_frames_for_vr180\<close>: the frame files in sorted order; each is read, its
  depth estimated, its stereo frame synthesised and written under the same name.
\<close>

definition process_frame ::
  "'a environment \<Rightarrow> conversion_settings \<Rightarrow> string \<Rightarrow> 'a world \<Rightarrow> py_error + 'a ndarray" where
  "process_frame env settings frame_path w =
     (case cv2_imread frame_path w of
        None \<Rightarrow> Inl (Raised LibraryError ''cv2.error: cvtColor: empty source'')
      | Some frame_rgb \<Rightarrow>
          bind_err (estimate_depth env frame_rgb) (\<lambda>depth_map.
            generate_stereo_pair frame_rgb depth_map settings))"

definition process_step ::
  "'a environment \<Rightarrow> conversion_settings \<Rightarrow> bool \<Rightarrow> string \<Rightarrow> string \<Rightarrow> nat
     \<Rightarrow> nat \<times> string \<Rightarrow> 'a world \<Rightarrow> py_error option \<times> 'a world" where
  "process_step env settings progress_callback frames_dir output_dir total_frames item w =
     (case item of (idx, frame_file) \<Rightarrow>
        (case process_frame env settings (path_join frames_dir frame_file) w of
           Inl e \<Rightarrow> (Some e, w)
         | Inr stereo_frame \<Rightarrow>
             let w1 = write_file (path_join output_dir frame_file) (ImageFile stereo_frame) w
             in (None, if progress_callback
                       then report (20 + (of_nat idx / of_nat total_frames) * 60)
                              Processing_frames_for_VR180 w1
                       else w1)))"

definition process_frames_for_vr180 ::
  "'a environment \<Rightarrow> conversion_settings \<Rightarrow> bool \<Rightarrow> string \<Rightarrow> string \<Rightarrow> 'a world
     \<Rightarrow> py_error option \<times> 'a world" where
  "process_frames_for_vr180 env settings progress_callback frames_dir output_dir w =
     (let frame_files = sort (filter (\<lambda>f. endswith f ''.jpg'') (listdir frames_dir w));
          total_frames = length frame_files
      in for_each_io (enumerate_from0 frame_files)
           (process_step env settings progress_callback frames_dir output_dir total_frames) w)"

text \<open>
  The frames ffmpeg reads through the pattern: number 0, 1, 2, ... for as long as the file
  of that number exists.
\<close>

definition pattern_frames :: "string \<Rightarrow> 'a world \<Rightarrow> 'a ndarray list" where
  "pattern_frames frames_dir w =
     map (\<lambda>i. the (cv2_imread (path_join frames_dir (pattern_name i)) w))
       (takeWhile (\<lambda>i. cv2_imread (path_join frames_dir (pattern_name i)) w \<noteq> None)
          [0..<length (files w)])"

text \<open>
  \<^verbatim>\<open>_generate_vr180_video\<close>: raises when there is no processed frame; otherwise ffmpeg
  encodes the frames of the pattern at the resolved dimensions and bitrate, and the
  progress 100 is reported.
\<close>

definition generate_vr180_video ::
  "'a environment \<Rightarrow> conversion_settings \<Rightarrow> bool \<Rightarrow> string \<Rightarrow> string \<Rightarrow> 'a world
     \<Rightarrow> py_error option \<times> 'a world" where
  "generate_vr180_video env settings progress_callback frames_dir output_path w =
     (let frame_files = sort (filter (\<lambda>f. endswith f ''.jpg'') (listdir frames_dir w))
      in if frame_files = []
         then (Some (Raised ValueError ''No processed frames found''), w)
         else (case cv2_imread (path_join frames_dir (hd frame_files)) w of
            None \<Rightarrow> (Some (Raised AttributeError
                        ([CHR 0x27] @ ''NoneType'' @ [CHR 0x27] @ '' object has no attribute ''
                           @ [CHR 0x27] @ ''shape'' @ [CHR 0x27])), w)
          | Some first_frame \<Rightarrow>
             (case get_output_resolution (resolution settings) of
                (output_width, output_height) \<Rightarrow>
                  let rate = get_bitrate (quality settings) output_width output_height
                  in (case ffmpeg_encode env of
                        Some e \<Rightarrow> (Some e, w)
                      | None \<Rightarrow>
                          let w1 = write_file output_path
                                (VideoFile \<lparr>video_frames = pattern_frames frames_dir w,
                                   video_width = output_width, video_height = output_height,
                                   video_bitrate = rate,
                                   video_frame_rate = frame_rate settings\<rparr>) w
                          in (None, if progress_callback
                                    then report 100 Video_generation_completed w1
                                    else w1)))))"

text \<open>\<^verbatim>\<open>_generate_thumbnail\<close>: one frame of the source video, written into the workspace.\<close>

definition generate_thumbnail ::
  "'a environment \<Rightarrow> string \<Rightarrow> 'a world \<Rightarrow> (py_error + string) \<times> 'a world" where
  "generate_thumbnail env temp_dir w =
     (let thumbnail_path = path_join temp_dir ''thumbnail.jpg''
      in case ffmpeg_thumbnail env of
           Inl e \<Rightarrow> (Inl e, w)
         | Inr img \<Rightarrow> (Inr thumbnail_path, write_file thumbnail_path (ImageFile img) w))"

text \<open>\<^verbatim>\<open>_get_video_metadata\<close> returns the empty dictionary when anything raises.\<close>

definition get_video_metadata :: "'a environment \<Rightarrow> video_metadata option" where
  "get_video_metadata env = (case ffprobe env of Inl e \<Rightarrow> None | Inr m \<Rightarrow> Some m)"


section \<open>The orchestrator\<close>

text \<open>
  The result dictionary: on success the output path, the thumbnail path and the metadata
  (\<open>None\<close> for the empty dictionary); on failure the error text.
\<close>

datatype conversion_result =
    Success string string "video_metadata option"
  | Failure string

fun success :: "conversion_result \<Rightarrow> bool" where
  "success (Success out thumb md) = True"
| "success (Failure msg) = False"

text \<open>The body of the \<^verbatim>\<open>with\<close> block of \<^verbatim>\<open>process_video\<close>.\<close>

definition run_stages ::
  "'a environment \<Rightarrow> string \<Rightarrow> conversion_settings \<Rightarrow> bool \<Rightarrow> string \<Rightarrow> 'a world
     \<Rightarrow> (py_error + conversion_result) \<times> 'a world" where
  "run_stages env output_path settings progress_callback temp_dir w =
     (let frames_dir = path_join temp_dir ''frames''
      in case extract_frames env progress_callback frames_dir w of
           (Some e, w1) \<Rightarrow> (Inl e, w1)
         | (None, w1) \<Rightarrow>
      let processed_frames_dir = path_join temp_dir ''processed_frames''
      in case process_frames_for_vr180 env settings progress_callback frames_dir
                processed_frames_dir w1 of
           (Some e, w2) \<Rightarrow> (Inl e, w2)
         | (None, w2) \<Rightarrow>
      (case generate_vr180_video env settings progress_callback processed_frames_dir
                output_path w2 of
           (Some e, w3) \<Rightarrow> (Inl e, w3)
         | (None, w3) \<Rightarrow>
      (case generate_thumbnail env temp_dir w3 of
           (Inl e, w4) \<Rightarrow> (Inl e, w4)
         | (Inr thumbnail_path, w4) \<Rightarrow>
             let metadata = get_video_metadata env
             in (Inr (Success output_path thumbnail_path metadata), w4))))"

text \<open>
  \<^verbatim>\<open>with tempfile.TemporaryDirectory() as temp_dir\<close>: the directory is removed however
  the body ends. \<^verbatim>\<open>try ... except Exception as e\<close>: whatever is raised becomes a result.
\<close>

definition with_temporary_directory ::
  "'a environment \<Rightarrow> (string \<Rightarrow> 'a world \<Rightarrow> (py_error + 'r) \<times> 'a world) \<Rightarrow> 'a world
     \<Rightarrow> (py_error + 'r) \<times> 'a world" where
  "with_temporary_directory env body w =
     (case mkdtemp env of
        Inl e \<Rightarrow> (Inl e, w)
      | Inr temp_dir \<Rightarrow> (case body temp_dir w of (r, w') \<Rightarrow> (r, rmtree temp_dir w')))"

definition try_except ::
  "(py_error + 'r) \<times> 's \<Rightarrow> (py_error \<Rightarrow> 'r) \<Rightarrow> (py_error + 'r) \<times> 's" where
  "try_except m handler =
     (case m of (Inl e, s) \<Rightarrow> (Inr (handler e), s) | (Inr r, s) \<Rightarrow> (Inr r, s))"

definition process_video ::
  "'a environment \<Rightarrow> string \<Rightarrow> string \<Rightarrow> conversion_settings \<Rightarrow> bool \<Rightarrow> 'a world
     \<Rightarrow> (py_error + conversion_result) \<times> 'a world" where
  "process_video env input_path output_path settings progress_callback w =
     (if \<not> dependencies_available env
      then (Inr (Failure ''Video processing dependencies not available''), w)
      else try_except
             (with_temporary_directory env
                (run_stages env output_path settings progress_callback) w)
             (\<lambda>e. Failure (message e)))"


section \<open>A sample conversion\<close>

text \<open>
  A source video of two different 2x2 frames whose container declares two frames, a depth model that
  returns a ramp, and ffmpeg calls that succeed; the state before the call holds no file
  and no progress report.
\<close>

definition ramp_raw :: "rat ndarray" where
  "ramp_raw = \<lparr>nrows = 2, ncols = 2, cells = [ [0, 1], [2, 3]]\<rparr>"

definition sample_metadata :: video_metadata where
  "sample_metadata = \<lparr>duration = 1, source_width = 2, source_height = 2, fps = 2,
     source_bitrate = 1000, codec = ''h264''\<rparr>"

definition second_frame :: "nat ndarray" where
  "second_frame = \<lparr>nrows = 2, ncols = 2, cells = [ [4, 5], [6, 7]]\<rparr>"

definition sample_env :: "nat environment" where
  "sample_env = \<lparr>dependencies_available = True, mkdtemp = Inr ''/tmp/w'',
     cap_frame_count = 2, cap_frames = [small_frame, second_frame],
     has_midas_transforms = True, midas_depth = (\<lambda>frame. Inr ramp_raw),
     ffmpeg_encode = None, ffmpeg_thumbnail = Inr small_frame,
     ffprobe = Inr sample_metadata\<rparr>"

definition empty_world :: "nat world" where
  "empty_world = \<lparr>files = [], progress = []\<rparr>"

definition second_stereo :: "nat ndarray" where
  "second_stereo = \<lparr>nrows = 2, ncols = 4, cells = [ [4, 5, 4, 5], [6, 7, 6, 7]]\<rparr>"

definition sample_stereo :: "nat ndarray" where
  "sample_stereo = \<lparr>nrows = 2, ncols = 4, cells = [ [0, 1, 0, 1], [2, 3, 2, 3]]\<rparr>"

definition sample_video :: "nat video" where
  "sample_video = \<lparr>video_frames = [sample_stereo, second_stereo],
     video_width = 1920, video_height = 1080, video_bitrate = ''5000k'',
     video_frame_rate = Some 30\<rparr>"



definition no_frames_env :: "nat environment" where
  "no_frames_env = sample_env\<lparr>cap_frames := []\<rparr>"

definition thumbnail_fails_env :: "nat environment" where
  "thumbnail_fails_env = sample_env\<lparr>ffmpeg_thumbnail := Inl (Raised LibraryError ''ffmpeg error'')\<rparr>"



section \<open>Progress ranges\<close>




section \<open>Evaluation lemmas\<close>

lemma str_nat_small: "n < 10 \<Longrightarrow> str_nat n = [digit_char n]"
  by (simp add: str_nat.simps)

lemma str_nat_step:
  "10 \<le> n \<Longrightarrow> str_nat n = str_nat (n div 10) @ [digit_char (n mod 10)]"
  by (subst str_nat.simps) simp

lemma digit_char_simps:
  "digit_char 0 = CHR ''0''" "digit_char (Suc 0) = CHR ''1''" "digit_char 2 = CHR ''2''"
  "digit_char 3 = CHR ''3''" "digit_char 4 = CHR ''4''" "digit_char 5 = CHR ''5''"
  "digit_char 6 = CHR ''6''" "digit_char 7 = CHR ''7''" "digit_char 8 = CHR ''8''"
  "digit_char 9 = CHR ''9''"
  by (simp_all add: digit_char_def)

lemmas str_nat_eval = str_nat_small str_nat_step digit_char_simps

lemma floor_rat_numeral:
  "\<lfloor>(numeral a :: rat) / numeral b\<rfloor> = numeral a div numeral b"
  using floor_divide_of_int_eq [of "numeral a" "numeral b", where ?'a = rat] by simp

lemmas bitrate_eval =
  resolve_bitrate_def get_output_resolution_def dict_get_def resolutions_def get_bitrate_def
  base_bitrates_def py_trunc_def str_int_def Let_def floor_rat_numeral str_nat_eval


section \<open>Encoder parameters: results\<close>

lemma get_output_resolution_table:
  "get_output_resolution r = spec_dimensions r"
  by (simp add: get_output_resolution_def dict_get_def resolutions_def spec_dimensions_def)

lemma base_bitrate_table:
  "dict_get base_bitrates q 2500 = spec_base_bitrate q"
  by (simp add: dict_get_def base_bitrates_def spec_base_bitrate_def)

lemma spec_base_bitrate_pos: "0 < spec_base_bitrate q"
  by (simp add: spec_base_bitrate_def)

lemma spec_dimensions_pos:
  "0 < fst (spec_dimensions r) * snd (spec_dimensions r)"
  by (simp add: spec_dimensions_def)

lemma scaled_bitrate_nonneg: "0 \<le> scaled_bitrate q r"
proof -
  have "0 \<le> (of_int (spec_base_bitrate q) :: rat)"
    using spec_base_bitrate_pos [of q] by simp
  moreover have "0 \<le> (of_int (fst (spec_dimensions r) * snd (spec_dimensions r)) :: rat)"
    using spec_dimensions_pos [of r] by (simp only: of_int_0_le_iff)
  ultimately show ?thesis
    unfolding scaled_bitrate_def by (intro mult_nonneg_nonneg divide_nonneg_nonneg) simp_all
qed

lemma resolve_bitrate_floor:
  "resolve_bitrate q r = str_int \<lfloor>scaled_bitrate q r\<rfloor> @ ''k''"
proof -
  have "resolve_bitrate q r = str_int (py_trunc (scaled_bitrate q r)) @ ''k''"
    unfolding resolve_bitrate_def get_bitrate_def Let_def scaled_bitrate_def
      get_output_resolution_table base_bitrate_table
    by (simp add: case_prod_beta)
  moreover have "py_trunc (scaled_bitrate q r) = \<lfloor>scaled_bitrate q r\<rfloor>"
    using scaled_bitrate_nonneg [of q r] by (simp add: py_trunc_def)
  ultimately show ?thesis by simp
qed

text \<open>
  C5, as stated: the effective bitrate is the scaled base bitrate rounded to an integer.
  The code truncates instead (\<^verbatim>\<open>int(...)\<close>), so for quality \<^verbatim>\<open>low\<close> at \<^verbatim>\<open>1440p\<close>, where
  the scaled value is 1777.78, it yields \<^verbatim>\<open>1777k\<close> while rounding gives \<^verbatim>\<open>1778k\<close>.
\<close>

theorem resolve_bitrate_round_counterexample:
  "resolve_bitrate ''low'' ''1440p'' = ''1777k''
   \<and> spec_bitrate ''low'' ''1440p'' = ''1778k''
   \<and> resolve_bitrate ''low'' ''1440p'' \<noteq> spec_bitrate ''low'' ''1440p''"
proof -
  have "resolve_bitrate ''low'' ''1440p'' = ''1777k''"
    by (simp add: bitrate_eval)
  moreover have "spec_bitrate ''low'' ''1440p'' = ''1778k''"
    by (simp add: spec_bitrate_def scaled_bitrate_def spec_base_bitrate_def
        spec_dimensions_def round_def str_int_def floor_rat_numeral str_nat_eval)
  ultimately show ?thesis by simp
qed

text \<open>
  C5, amended: for every quality and resolution string the dimensions and the base bitrate
  are resolved by the two tables with their fall-backs (1920x1080 and 2500), and the effective
  bitrate is the scaled base bitrate truncated to an integer (its floor, the value being
  non-negative) with a \<^verbatim>\<open>k\<close> suffix; quality \<^verbatim>\<open>high\<close> at \<^verbatim>\<open>1080p\<close> yields exactly
  \<^verbatim>\<open>5000k\<close> and quality \<^verbatim>\<open>low\<close> at \<^verbatim>\<open>4K\<close> yields exactly \<^verbatim>\<open>4000k\<close>.
\<close>

theorem resolve_bitrate_truncates:
  "get_output_resolution r = spec_dimensions r
   \<and> dict_get base_bitrates q 2500 = spec_base_bitrate q
   \<and> resolve_bitrate q r = str_int \<lfloor>scaled_bitrate q r\<rfloor> @ ''k''
   \<and> resolve_bitrate ''high'' ''1080p'' = ''5000k''
   \<and> resolve_bitrate ''low'' ''4K'' = ''4000k''"
proof -
  have "resolve_bitrate ''high'' ''1080p'' = ''5000k''"
    by (simp add: bitrate_eval)
  moreover have "resolve_bitrate ''low'' ''4K'' = ''4000k''"
    by (simp add: bitrate_eval)
  ultimately show ?thesis
    using get_output_resolution_table [of r] base_bitrate_table [of q]
      resolve_bitrate_floor [of q r]
    by simp
qed


section \<open>Stereo synthesis: the pixel loop\<close>

lemma for_each_append:
  "for_each (xs @ ys) body s =
     (case for_each xs body s of Inl e \<Rightarrow> Inl e | Inr s' \<Rightarrow> for_each ys body s')"
  by (induction xs arbitrary: s) (auto split: sum.splits)

lemma for_each_upt_Suc:
  "for_each [0..<Suc k] body s =
     (case for_each [0..<k] body s of Inl e \<Rightarrow> Inl e | Inr s' \<Rightarrow> body k s')"
  by (simp add: for_each_append split: sum.splits)

lemma py_trunc_nonneg: "0 \<le> q \<Longrightarrow> py_trunc q = \<lfloor>q\<rfloor>"
  by (simp add: py_trunc_def)

lemma max_shift_of_div: "max_shift_of w = int (w div 20)"
proof -
  have "(of_nat w * (5 / 100) :: rat) = of_int (int w) / of_int 20" by simp
  then have "\<lfloor>of_nat w * (5 / 100) :: rat\<rfloor> = int w div 20"
    by (simp only: floor_divide_of_int_eq)
  moreover have "0 \<le> (of_nat w * (5 / 100) :: rat)" by simp
  ultimately show ?thesis
    by (simp add: max_shift_of_def py_trunc_nonneg zdiv_int)
qed

lemma wf_array_row: "wf_array a \<Longrightarrow> y < nrows a \<Longrightarrow> length (cells a ! y) = ncols a"
  by (simp add: wf_array_def list_all_length)






















section \<open>Stereo synthesis: disparity bound\<close>








section \<open>Stereo synthesis: determinism\<close>











section \<open>Depth normalisation\<close>

lemma np_min_Min: "vals \<noteq> [] \<Longrightarrow> np_min vals = Min (set vals)"
  by (cases vals) (simp_all add: np_min_def Min.set_eq_fold [symmetric])

lemma np_max_Max: "vals \<noteq> [] \<Longrightarrow> np_max vals = Max (set vals)"
  by (cases vals) (simp_all add: np_max_def Max.set_eq_fold [symmetric])

lemma cell_in_concat:
  "wf_array a \<Longrightarrow> y < nrows a \<Longrightarrow> x < ncols a \<Longrightarrow> cells a ! y ! x \<in> set (concat (cells a))"
  using wf_array_row [of a y] by (auto simp: wf_array_def intro!: bexI [of _ "cells a ! y"])

lemma normalize_depth_nondegenerate:
  assumes wf: "wf_array raw"
    and ne: "np_max (concat (cells raw)) \<noteq> np_min (concat (cells raw))"
    and nonempty: "concat (cells raw) \<noteq> []"
  shows "\<exists>dm. normalize_depth raw = Inr dm \<and> view_ok raw dm \<and> unit_depth dm
           \<and> (\<forall>y < nrows raw. \<forall>x < ncols raw.
                 (cells raw ! y ! x = np_min (concat (cells raw)) \<longrightarrow> cells dm ! y ! x = Fin 0)
               \<and> (cells raw ! y ! x = np_max (concat (cells raw)) \<longrightarrow> cells dm ! y ! x = Fin 1))"
proof -
  let ?vals = "concat (cells raw)"
  let ?mn = "np_min ?vals" and ?mx = "np_max ?vals"
  let ?f = "\<lambda>d. np_div (d - ?mn) (?mx - ?mn)"
  let ?dm = "\<lparr>nrows = nrows raw, ncols = ncols raw, cells = map (map ?f) (cells raw)\<rparr>"
  have eq: "normalize_depth raw = Inr ?dm"
    using nonempty by (simp add: normalize_depth_def Let_def)
  have bounds: "?mn \<le> d \<and> d \<le> ?mx" if "d \<in> set ?vals" for d
    using that nonempty by (simp add: np_min_Min np_max_Max)
  have "?mn \<le> ?mx" using bounds nonempty by (metis last_in_set order_trans)
  then have pos: "0 < ?mx - ?mn" using ne by simp
  have f: "?f d = Fin ((d - ?mn) / (?mx - ?mn))" for d
    using pos by (simp add: np_div_def)
  have ok: "view_ok raw ?dm"
    using wf by (simp add: view_ok_def wf_array_def list_all_length)
  have unit: "unit_depth ?dm"
    unfolding unit_depth_def list_all_iff
  proof (intro ballI)
    fix r v assume r: "r \<in> set (cells ?dm)" and v: "v \<in> set r"
    then obtain r0 d where "r0 \<in> set (cells raw)" "d \<in> set r0" "v = ?f d" by auto
    then have d: "d \<in> set ?vals" "v = Fin ((d - ?mn) / (?mx - ?mn))" using f by auto
    then show "case v of Fin d \<Rightarrow> 0 \<le> d \<and> d \<le> 1 | _ \<Rightarrow> False"
      using bounds [OF d(1)] pos by simp
  qed
  have cell: "cells ?dm ! y ! x = ?f (cells raw ! y ! x)" if "y < nrows raw" "x < ncols raw" for y x
    using that wf wf_array_row [OF wf that(1)] by (simp add: wf_array_def)
  have ends: "(cells raw ! y ! x = ?mn \<longrightarrow> cells ?dm ! y ! x = Fin 0)
               \<and> (cells raw ! y ! x = ?mx \<longrightarrow> cells ?dm ! y ! x = Fin 1)"
    if "y < nrows raw" "x < ncols raw" for y x
    using cell [OF that] f pos by auto
  show ?thesis using eq ok unit ends by blast
qed

text \<open>
  C2 requires the normalised map of a spatially constant raw output to be all zero and
  never NaN. The code divides without a guard: on the constant raw output \<open>flat_raw\<close> every
  value of the normalised map is \<open>0 / 0\<close>, that is NaN, and the stereo synthesis then
  raises on \<^verbatim>\<open>int(nan)\<close>. (For a raw output that is not constant the claim holds, see
  \<open>normalize_depth_nondegenerate\<close>.)
\<close>

theorem normalize_depth_constant_nan:
  "normalize_depth flat_raw = Inr nan_depth
   \<and> generate_stereo_pair small_frame nan_depth default_settings
        = Inl (Raised ValueError ''cannot convert float NaN to integer'')"
proof -
  have "normalize_depth flat_raw = Inr nan_depth"
    by (simp add: normalize_depth_def flat_raw_def nan_depth_def np_min_def np_max_def
        np_div_def)
  moreover have "generate_stereo_pair small_frame nan_depth default_settings
        = Inl (Raised ValueError ''cannot convert float NaN to integer'')"
    by (simp add: generate_stereo_pair_def stereo_views_def small_frame_def nan_depth_def
        Let_def upt_rec splat_pixel_def bind_err_def np_get_def np_mul_int_def py_int_def)
  ultimately show ?thesis by simp
qed


section \<open>Frame files: names and order\<close>

lemma fixed_digits_length [simp]: "length (fixed_digits k n) = k"
  by (induction k arbitrary: n) simp_all

lemma fixed_digits_zero: "fixed_digits k 0 = replicate k (CHR ''0'')"
  by (induction k) (simp_all add: digit_char_simps replicate_append_same)

lemma str_nat_length_pos: "0 < length (str_nat n)"
  by (induction n rule: str_nat.induct) (subst str_nat.simps, simp)

lemma str_nat_length_le: "n < 10 ^ k \<Longrightarrow> 0 < k \<Longrightarrow> length (str_nat n) \<le> k"
proof (induction k arbitrary: n)
  case 0
  then show ?case by simp
next
  case (Suc k)
  show ?case
  proof (cases "n < 10")
    case True
    then show ?thesis by (simp add: str_nat_small)
  next
    case False
    then have "n div 10 < 10 ^ k" using Suc.prems by simp
    moreover have "0 < k" using False Suc.prems by (cases k) simp_all
    ultimately have "length (str_nat (n div 10)) \<le> k" by (rule Suc.IH)
    then show ?thesis using False by (simp add: str_nat_step)
  qed
qed

lemma zero_pad_fixed: "n < 10 ^ k \<Longrightarrow> 0 < k \<Longrightarrow> zero_pad k (str_nat n) = fixed_digits k n"
proof (induction k arbitrary: n)
  case 0
  then show ?case by simp
next
  case (Suc k)
  show ?case
  proof (cases "n < 10")
    case True
    then show ?thesis
      by (simp add: str_nat_small zero_pad_def fixed_digits_zero)
  next
    case False
    then have lt: "n div 10 < 10 ^ k" using Suc.prems by simp
    have k: "0 < k" using False Suc.prems by (cases k) simp_all
    have IH: "zero_pad k (str_nat (n div 10)) = fixed_digits k (n div 10)"
      using lt k by (rule Suc.IH)
    have len: "length (str_nat (n div 10)) \<le> k" using lt k by (rule str_nat_length_le)
    have "zero_pad (Suc k) (str_nat n)
        = zero_pad k (str_nat (n div 10)) @ [digit_char (n mod 10)]"
      using False len by (simp add: str_nat_step zero_pad_def)
    then show ?thesis using IH by simp
  qed
qed



lemma small_cases: "d < 10 \<Longrightarrow> d \<in> set [0, 1, 2, 3, 4, 5, 6, 7, 8, 9 :: nat]"
  by (simp) arith

lemma all_digits:
  "\<forall>d \<in> set [0, 1, 2, 3, 4, 5, 6, 7, 8, 9 :: nat]. of_char (digit_char d) = 48 + d"
  by (simp add: digit_char_def)

lemma of_char_digit: "d < 10 \<Longrightarrow> of_char (digit_char d) = 48 + d"
  using small_cases all_digits by blast

lemma mod_less_of_div_eq:
  "m < n \<Longrightarrow> m div 10 = n div 10 \<Longrightarrow> m mod 10 < n mod (10::nat)"
proof -
  assume a: "m < n" "m div 10 = n div 10"
  have "m = 10 * (m div 10) + m mod 10" "n = 10 * (n div 10) + n mod 10" by simp_all
  then show ?thesis using a by linarith
qed

lemma digit_char_mono: "a < b \<Longrightarrow> b < 10 \<Longrightarrow> digit_char a < digit_char b"
  using of_char_digit [of a] of_char_digit [of b] by (simp add: less_char_def)

lemma less_append_same_length:
  "length xs = length ys \<Longrightarrow> xs < ys \<Longrightarrow> xs @ us < ys @ (vs :: 'a :: linorder list)"
  by (induction xs ys rule: list_induct2) auto

lemma less_append_same_prefix:
  "(xs @ us < xs @ vs) = (us < (vs :: 'a :: linorder list))"
  by (induction xs) auto

lemma fixed_digits_mono:
  "m < n \<Longrightarrow> n < 10 ^ k \<Longrightarrow> fixed_digits k m < fixed_digits k n"
proof (induction k arbitrary: m n)
  case 0
  then show ?case by simp
next
  case (Suc k)
  have n: "n div 10 < 10 ^ k" using Suc.prems by simp
  have le: "m div 10 \<le> n div 10" using Suc.prems(1) by (simp add: div_le_mono)
  have md: "m div 10 = n div 10 \<Longrightarrow> m mod 10 < n mod 10"
    using Suc.prems(1) by (rule mod_less_of_div_eq)
  show ?case
  proof (cases "m div 10 < n div 10")
    case True
    then have "fixed_digits k (m div 10) < fixed_digits k (n div 10)" using n by (rule Suc.IH)
    then show ?thesis by (simp add: less_append_same_length)
  next
    case False
    then have eq: "m div 10 = n div 10" using le by simp
    have "digit_char (m mod 10) < digit_char (n mod 10)"
      using md [OF eq] by (rule digit_char_mono) simp
    then show ?thesis using eq by (simp add: less_append_same_prefix)
  qed
qed


lemma frame_name_mono:
  assumes "i < j" "j < 10 ^ 6"
  shows "frame_name i < frame_name j"
proof -
  have "fixed_digits 6 i < fixed_digits 6 j" using assms by (rule fixed_digits_mono)
  then have "fixed_digits 6 i @ ''.jpg'' < fixed_digits 6 j @ ''.jpg''"
    by (simp add: less_append_same_length)
  then have "''frame_'' @ fixed_digits 6 i @ ''.jpg'' < ''frame_'' @ fixed_digits 6 j @ ''.jpg''"
    by (simp only: less_append_same_prefix)
  moreover have "i < 10 ^ 6" using assms by simp
  ultimately show ?thesis
    using assms(2) by (simp only: frame_name_def zero_pad_fixed zero_less_numeral)
qed

lemma frame_name_less_iff:
  assumes "i < 10 ^ 6" "j < 10 ^ 6"
  shows "(frame_name i < frame_name j) = (i < j)"
proof
  assume "i < j" then show "frame_name i < frame_name j" using assms(2) by (rule frame_name_mono)
next
  assume l: "frame_name i < frame_name j"
  show "i < j"
  proof (rule ccontr)
    assume "\<not> i < j"
    then consider "i = j" | "j < i" by force
    then show False
    proof cases
      case 1 then show ?thesis using l by simp
    next
      case 2
      then have "frame_name j < frame_name i" using assms(1) by (rule frame_name_mono)
      then show ?thesis using l by simp
    qed
  qed
qed

lemma sorted_frame_names: "n \<le> 10 ^ 6 \<Longrightarrow> sorted (map frame_name [0..<n])"
proof -
  assume n: "n \<le> 10 ^ 6"
  have "frame_name i \<le> frame_name j" if "i \<le> j" "j < n" for i j
  proof (cases "i = j")
    case True then show ?thesis by simp
  next
    case False
    then have "i < j" using that by simp
    moreover have "j < 10 ^ 6" using that n by simp
    ultimately show ?thesis using frame_name_mono [of i j] by simp
  qed
  then show ?thesis by (simp add: sorted_iff_nth_mono)
qed

lemma distinct_frame_names: "n \<le> 10 ^ 6 \<Longrightarrow> distinct (map frame_name [0..<n])"
proof -
  assume n: "n \<le> 10 ^ 6"
  have "frame_name i \<noteq> frame_name j" if "i < n" "j < n" "i \<noteq> j" for i j
  proof -
    have "i < 10 ^ 6" "j < 10 ^ 6" using that n by simp_all
    then have "(frame_name i < frame_name j) = (i < j)" "(frame_name j < frame_name i) = (j < i)"
      by (simp_all add: frame_name_less_iff)
    then show ?thesis using that(3) by (metis less_irrefl linorder_neqE_nat)
  qed
  then show ?thesis by (simp add: distinct_conv_nth)
qed

lemma sort_frame_names:
  assumes "n \<le> 10 ^ 6" "set ls = set (map frame_name [0..<n])" "distinct ls"
  shows "sort ls = map frame_name [0..<n]"
proof (rule sorted_distinct_set_unique)
  show "sorted (sort ls)" by simp
  show "distinct (sort ls)" using assms(3) by simp
  show "sorted (map frame_name [0..<n])" using assms(1) by (rule sorted_frame_names)
  show "distinct (map frame_name [0..<n])" using assms(1) by (rule distinct_frame_names)
  show "set (sort ls) = set (map frame_name [0..<n])" using assms(2) by simp
qed

lemma replicate_5: "replicate 5 c = [c, c, c, c, c]"
  by (simp add: numeral_eq_Suc)

lemma frame_name_0: "frame_name 0 = ''frame_000000.jpg''"
  by (simp add: frame_name_def zero_pad_def str_nat_eval replicate_5)

lemma frame_name_1: "frame_name (Suc 0) = ''frame_000001.jpg''"
  by (simp add: frame_name_def zero_pad_def str_nat_eval replicate_5)







section \<open>The sample conversion, stage by stage\<close>

lemma enumerate_2: "enumerate_from0 [a, b] = [(0, a), (1, b)]"
  by (simp add: enumerate_from0_def upt_rec)

lemma extract_sample:
  assumes "cap_frames env = [small_frame, second_frame]" "cap_frame_count env = fc" "fc \<noteq> 0"
  shows "extract_frames env True ''/tmp/w/frames'' empty_world =
    (None, \<lparr>files = [(''/tmp/w/frames/frame_000001.jpg'', ImageFile second_frame),
                      (''/tmp/w/frames/frame_000000.jpg'', ImageFile small_frame)],
            progress = [(1 / of_int fc * 20, Extracting_frames),
                        (2 / of_int fc * 20, Extracting_frames)]\<rparr>)"
  using assms
  by (simp add: extract_frames_def enumerate_2 extract_step_def Let_def write_file_def
      path_join_def frame_name_0 frame_name_1 report_def empty_world_def)

lemma listdir_frames:
  "listdir ''/tmp/w/frames''
     \<lparr>files = [(''/tmp/w/frames/frame_000001.jpg'', a), (''/tmp/w/frames/frame_000000.jpg'', b)],
      progress = ps\<rparr>
   = [''frame_000001.jpg'', ''frame_000000.jpg'']"
  by (simp add: listdir_def under_def)

lemma sort_two: "sort [''frame_000001.jpg'', ''frame_000000.jpg''] = [''frame_000000.jpg'', ''frame_000001.jpg'']"
  by (simp add: less_char_def less_eq_char_def)

lemma normalize_ramp:
  "normalize_depth ramp_raw = Inr \<lparr>nrows = 2, ncols = 2, cells = [ [Fin 0, Fin (1 / 3)], [Fin (2 / 3), Fin 1]]\<rparr>"
  by (simp add: normalize_depth_def ramp_raw_def np_min_def np_max_def np_div_def)

lemma max_shift_of_2: "max_shift_of 2 = 0"
  by (simp add: max_shift_of_div)

lemma stereo_sample:
  "generate_stereo_pair small_frame
     \<lparr>nrows = 2, ncols = 2, cells = [ [Fin 0, Fin (1 / 3)], [Fin (2 / 3), Fin 1]]\<rparr>
     default_settings = Inr sample_stereo"
  by (simp add: generate_stereo_pair_def stereo_views_def small_frame_def max_shift_of_2
      Let_def upt_rec splat_pixel_def bind_err_def np_get_def np_mul_int_def py_int_def
      py_trunc_def np_set_def default_settings_def hstack_def sample_stereo_def)


lemma stereo_second:
  "generate_stereo_pair second_frame
     \<lparr>nrows = 2, ncols = 2, cells = [ [Fin 0, Fin (1 / 3)], [Fin (2 / 3), Fin 1]]\<rparr>
     default_settings = Inr second_stereo"
  by (simp add: generate_stereo_pair_def stereo_views_def second_frame_def max_shift_of_2
      Let_def upt_rec splat_pixel_def bind_err_def np_get_def np_mul_int_def py_int_def
      py_trunc_def np_set_def default_settings_def hstack_def second_stereo_def)

lemma estimate_sample:
  assumes "has_midas_transforms env" "midas_depth env = (\<lambda>frame. Inr ramp_raw)"
  shows "estimate_depth env frame =
     Inr \<lparr>nrows = 2, ncols = 2, cells = [ [Fin 0, Fin (1 / 3)], [Fin (2 / 3), Fin 1]]\<rparr>"
  using assms by (simp add: estimate_depth_def bind_err_def normalize_ramp)

lemma process_frame_sample:
  assumes "has_midas_transforms env" "midas_depth env = (\<lambda>frame. Inr ramp_raw)"
    and "cv2_imread p w = Some small_frame"
  shows "process_frame env default_settings p w = Inr sample_stereo"
  using assms(3) by (simp add: process_frame_def estimate_sample [OF assms(1,2)] bind_err_def
      stereo_sample)

lemma process_frame_second:
  assumes "has_midas_transforms env" "midas_depth env = (\<lambda>frame. Inr ramp_raw)"
    and "cv2_imread p w = Some second_frame"
  shows "process_frame env default_settings p w = Inr second_stereo"
  using assms(3) by (simp add: process_frame_def estimate_sample [OF assms(1,2)] bind_err_def
      stereo_second)

lemma process_sample:
  assumes "has_midas_transforms env" "midas_depth env = (\<lambda>frame. Inr ramp_raw)"
  shows "process_frames_for_vr180 env default_settings True ''/tmp/w/frames''
           ''/tmp/w/processed_frames''
           \<lparr>files = [(''/tmp/w/frames/frame_000001.jpg'', ImageFile second_frame),
                      (''/tmp/w/frames/frame_000000.jpg'', ImageFile small_frame)],
            progress = ps\<rparr> =
    (None, \<lparr>files = [(''/tmp/w/processed_frames/frame_000001.jpg'', ImageFile second_stereo),
                      (''/tmp/w/processed_frames/frame_000000.jpg'', ImageFile sample_stereo),
                      (''/tmp/w/frames/frame_000001.jpg'', ImageFile second_frame),
                      (''/tmp/w/frames/frame_000000.jpg'', ImageFile small_frame)],
            progress = ps @ [(20, Processing_frames_for_VR180),
                             (50, Processing_frames_for_VR180)]\<rparr>)"
  by (simp add: process_frames_for_vr180_def listdir_frames endswith_def sort_two enumerate_2
      process_step_def process_frame_sample [OF assms] process_frame_second [OF assms]
      cv2_imread_def path_join_def
      write_file_def report_def Let_def)

lemma pattern_names:
  "pattern_name 0 = ''frame_000000.jpg''" "pattern_name (Suc 0) = ''frame_000001.jpg''"
  "pattern_name 2 = ''frame_000002.jpg''"
  by (simp_all add: pattern_name_def zero_pad_def str_nat_eval replicate_5)

lemma pattern_name_2: "pattern_name (Suc (Suc 0)) = ''frame_000002.jpg''"
  using pattern_names(3) by (simp add: numeral_2_eq_2)

lemma generate_sample:
  assumes "ffmpeg_encode env = None"
  shows "generate_vr180_video env default_settings True ''/tmp/w/processed_frames'' ''/out.mp4''
           \<lparr>files = [(''/tmp/w/processed_frames/frame_000001.jpg'', ImageFile second_stereo),
                      (''/tmp/w/processed_frames/frame_000000.jpg'', ImageFile sample_stereo),
                      (''/tmp/w/frames/frame_000001.jpg'', ImageFile second_frame),
                      (''/tmp/w/frames/frame_000000.jpg'', ImageFile small_frame)],
            progress = ps\<rparr> =
    (None, \<lparr>files = [(''/out.mp4'', VideoFile sample_video),
                      (''/tmp/w/processed_frames/frame_000001.jpg'', ImageFile second_stereo),
                      (''/tmp/w/processed_frames/frame_000000.jpg'', ImageFile sample_stereo),
                      (''/tmp/w/frames/frame_000001.jpg'', ImageFile second_frame),
                      (''/tmp/w/frames/frame_000000.jpg'', ImageFile small_frame)],
            progress = ps @ [(100, Video_generation_completed)]\<rparr>)"
proof -
  have ls: "listdir ''/tmp/w/processed_frames''
     \<lparr>files = [(''/tmp/w/processed_frames/frame_000001.jpg'', ImageFile second_stereo),
                      (''/tmp/w/processed_frames/frame_000000.jpg'', ImageFile sample_stereo),
                      (''/tmp/w/frames/frame_000001.jpg'', ImageFile second_frame),
                      (''/tmp/w/frames/frame_000000.jpg'', ImageFile small_frame)],
            progress = ps\<rparr> = [''frame_000001.jpg'', ''frame_000000.jpg'']"
    by (simp add: listdir_def under_def)
  have pf: "pattern_frames ''/tmp/w/processed_frames''
     \<lparr>files = [(''/tmp/w/processed_frames/frame_000001.jpg'', ImageFile second_stereo),
                      (''/tmp/w/processed_frames/frame_000000.jpg'', ImageFile sample_stereo),
                      (''/tmp/w/frames/frame_000001.jpg'', ImageFile second_frame),
                      (''/tmp/w/frames/frame_000000.jpg'', ImageFile small_frame)],
            progress = ps\<rparr> = [sample_stereo, second_stereo]"
    by (simp add: pattern_frames_def upt_rec pattern_names pattern_name_2 cv2_imread_def
        path_join_def)
  have rb: "get_output_resolution ''1080p'' = (1920, 1080)"
    "get_bitrate ''high'' 1920 1080 = ''5000k''"
    by (simp_all add: bitrate_eval)
  show ?thesis
    using assms
    by (simp add: generate_vr180_video_def ls endswith_def sort_two cv2_imread_def
        path_join_def rb pf write_file_def report_def Let_def sample_video_def
        default_settings_def)
qed








lemma process_video_thumbnail_fails:
  "process_video thumbnail_fails_env ''/in.mp4'' ''/out.mp4'' default_settings True empty_world =
    (Inr (Failure ''ffmpeg error''),
     \<lparr>files = [(''/out.mp4'', VideoFile sample_video)],
       progress = [(10, Extracting_frames), (20, Extracting_frames),
                   (20, Processing_frames_for_VR180), (50, Processing_frames_for_VR180),
                   (100, Video_generation_completed)]\<rparr>)"
proof -
  have f: "dependencies_available thumbnail_fails_env"
    "mkdtemp thumbnail_fails_env = Inr ''/tmp/w''"
    "cap_frames thumbnail_fails_env = [small_frame, second_frame]"
    "cap_frame_count thumbnail_fails_env = 2" "(2::int) \<noteq> 0"
    "has_midas_transforms thumbnail_fails_env"
    "midas_depth thumbnail_fails_env = (\<lambda>frame. Inr ramp_raw)"
    "ffmpeg_encode thumbnail_fails_env = None"
    "ffmpeg_thumbnail thumbnail_fails_env = Inl (Raised LibraryError ''ffmpeg error'')"
    by (simp_all add: thumbnail_fails_env_def sample_env_def)
  have "run_stages thumbnail_fails_env ''/out.mp4'' default_settings True ''/tmp/w'' empty_world
    = (Inl (Raised LibraryError ''ffmpeg error''),
     \<lparr>files = [(''/out.mp4'', VideoFile sample_video),
                (''/tmp/w/processed_frames/frame_000001.jpg'', ImageFile second_stereo),
                (''/tmp/w/processed_frames/frame_000000.jpg'', ImageFile sample_stereo),
                (''/tmp/w/frames/frame_000001.jpg'', ImageFile second_frame),
                (''/tmp/w/frames/frame_000000.jpg'', ImageFile small_frame)],
       progress = [(10, Extracting_frames), (20, Extracting_frames),
                   (20, Processing_frames_for_VR180), (50, Processing_frames_for_VR180),
                   (100, Video_generation_completed)]\<rparr>)"
    unfolding run_stages_def Let_def
    by (simp add: path_join_def extract_sample [OF f(3,4,5)] process_sample [OF f(6,7)]
        generate_sample [OF f(8)] generate_thumbnail_def f(9))
  then show ?thesis
    using f(1,2)
    by (simp add: process_video_def with_temporary_directory_def try_except_def rmtree_def
        under_def)
qed



section \<open>The orchestrator: results and failures\<close>



lemma process_video_stage_error:
  assumes "dependencies_available env" "mkdtemp env = Inr temp_dir"
    and "run_stages env output_path settings cb temp_dir w = (Inl e, w1)"
  shows "process_video env input_path output_path settings cb w
           = (Inr (Failure (message e)), rmtree temp_dir w1)"
  using assms by (simp add: process_video_def try_except_def with_temporary_directory_def)

lemma process_video_success:
  assumes "process_video env input_path output_path settings cb w = (Inr r, w')" "success r"
  shows "\<exists>temp_dir w4. dependencies_available env \<and> mkdtemp env = Inr temp_dir
           \<and> run_stages env output_path settings cb temp_dir w = (Inr r, w4)
           \<and> w' = rmtree temp_dir w4"
  using assms
  by (auto simp: process_video_def try_except_def with_temporary_directory_def
      split: if_splits sum.splits prod.splits)

lemma rmtree_removes: "under d p \<Longrightarrow> \<not> file_exists p (rmtree d w)"
  by (auto simp: file_exists_def rmtree_def map_of_eq_None_iff)

lemma under_path_join: "under d (path_join d name)"
  by (simp add: under_def path_join_def)

lemma under_path_join2: "under d (path_join (path_join d sub) name)"
  by (simp add: under_def path_join_def)

lemma run_stages_success:
  assumes "run_stages env output_path settings cb temp_dir w = (Inr r, w4)"
  shows "\<exists>w1 w2 w3.
      extract_frames env cb (path_join temp_dir ''frames'') w = (None, w1)
    \<and> process_frames_for_vr180 env settings cb (path_join temp_dir ''frames'')
          (path_join temp_dir ''processed_frames'') w1 = (None, w2)
    \<and> generate_vr180_video env settings cb (path_join temp_dir ''processed_frames'')
          output_path w2 = (None, w3)
    \<and> generate_thumbnail env temp_dir w3 = (Inr (path_join temp_dir ''thumbnail.jpg''), w4)
    \<and> r = Success output_path (path_join temp_dir ''thumbnail.jpg'') (get_video_metadata env)"
  using assms unfolding run_stages_def Let_def
  by (auto simp: generate_thumbnail_def Let_def split: prod.splits option.splits sum.splits)

lemma success_thumbnail_missing:
  assumes "process_video env input_path output_path settings cb w = (Inr (Success out thumb md), w')"
  shows "\<not> file_exists thumb w'"
proof -
  obtain temp_dir w4 where d: "run_stages env output_path settings cb temp_dir w
        = (Inr (Success out thumb md), w4)" "w' = rmtree temp_dir w4"
    using process_video_success [OF assms] by auto
  have "thumb = path_join temp_dir ''thumbnail.jpg''"
    using run_stages_success [OF d(1)] by auto
  then show ?thesis using d(2) rmtree_removes under_path_join by metis
qed

lemma rmtree_write_under:
  "under d p \<Longrightarrow> files (rmtree d (write_file p c w)) = files (rmtree d w)"
proof -
  assume u: "under d p"
  have "filter (\<lambda>e. \<not> under d (fst e)) (filter (\<lambda>e. fst e \<noteq> p) fs)
          = filter (\<lambda>e. \<not> under d (fst e)) fs" for fs :: "(string \<times> 'a pyfile) list"
    using u by (induction fs) auto
  then show ?thesis using u by (simp add: rmtree_def write_file_def)
qed

lemma rmtree_report: "files (rmtree d (report p l w)) = files (rmtree d w)"
  by (simp add: rmtree_def report_def)

lemma for_each_io_invariant:
  assumes step: "\<And>i s r s'. body i s = (r, s') \<Longrightarrow> Q s' = Q s"
  shows "for_each_io xs body s = (r, s') \<Longrightarrow> Q s' = Q s"
proof (induction xs arbitrary: s)
  case Nil
  then show ?case by simp
next
  case (Cons i xs)
  obtain r1 s1 where b: "body i s = (r1, s1)" by (cases "body i s")
  have q: "Q s1 = Q s" using b by (rule step)
  show ?case
  proof (cases r1)
    case None
    then have "for_each_io xs body s1 = (r, s')" using Cons.prems b by simp
    then have "Q s' = Q s1" by (rule Cons.IH)
    then show ?thesis using q by simp
  next
    case (Some e)
    then have "s' = s1" using Cons.prems b by simp
    then show ?thesis using q by simp
  qed
qed

lemma extract_step_outside:
  "extract_step fc cb (path_join d sub) item w = (r, w1) \<Longrightarrow>
     files (rmtree d w1) = files (rmtree d w)"
  by (cases item)
     (auto simp: extract_step_def Let_def rmtree_write_under rmtree_report under_path_join2
        split: if_splits)

lemma extract_frames_outside:
  "extract_frames env cb (path_join d sub) w = (r, w1) \<Longrightarrow>
     files (rmtree d w1) = files (rmtree d w)"
  unfolding extract_frames_def Let_def
  by (rule for_each_io_invariant [where Q = "\<lambda>w. files (rmtree d w)"])
     (rule extract_step_outside)

lemma process_step_outside:
  "process_step env settings cb fd (path_join d sub) n item w = (r, w1) \<Longrightarrow>
     files (rmtree d w1) = files (rmtree d w)"
  by (cases item)
     (auto simp: process_step_def Let_def rmtree_write_under rmtree_report under_path_join2
        split: if_splits sum.splits)

lemma process_frames_outside:
  "process_frames_for_vr180 env settings cb fd (path_join d sub) w = (r, w1) \<Longrightarrow>
     files (rmtree d w1) = files (rmtree d w)"
  unfolding process_frames_for_vr180_def Let_def
  by (rule for_each_io_invariant [where Q = "\<lambda>w. files (rmtree d w)"])
     (rule process_step_outside)

lemma run_stages_failure:
  assumes "run_stages env output_path settings cb temp_dir w = (Inl e, w1)"
  shows "(extract_frames env cb (path_join temp_dir ''frames'') w = (Some e, w1)
            \<and> files (rmtree temp_dir w1) = files (rmtree temp_dir w))
       \<or> (\<exists>wa. extract_frames env cb (path_join temp_dir ''frames'') w = (None, wa)
            \<and> process_frames_for_vr180 env settings cb (path_join temp_dir ''frames'')
                 (path_join temp_dir ''processed_frames'') wa = (Some e, w1)
            \<and> files (rmtree temp_dir w1) = files (rmtree temp_dir w))
       \<or> (\<exists>wa wb. extract_frames env cb (path_join temp_dir ''frames'') w = (None, wa)
            \<and> process_frames_for_vr180 env settings cb (path_join temp_dir ''frames'')
                 (path_join temp_dir ''processed_frames'') wa = (None, wb)
            \<and> generate_vr180_video env settings cb (path_join temp_dir ''processed_frames'')
                 output_path wb = (Some e, w1))
       \<or> (\<exists>wa wb wc. extract_frames env cb (path_join temp_dir ''frames'') w = (None, wa)
            \<and> process_frames_for_vr180 env settings cb (path_join temp_dir ''frames'')
                 (path_join temp_dir ''processed_frames'') wa = (None, wb)
            \<and> generate_vr180_video env settings cb (path_join temp_dir ''processed_frames'')
                 output_path wb = (None, wc)
            \<and> generate_thumbnail env temp_dir wc = (Inl e, w1))"
proof -
  let ?fd = "path_join temp_dir ''frames''" and ?pd = "path_join temp_dir ''processed_frames''"
  obtain r1 wa where 1: "extract_frames env cb ?fd w = (r1, wa)"
    by (cases "extract_frames env cb ?fd w")
  have o1: "files (rmtree temp_dir wa) = files (rmtree temp_dir w)"
    using 1 by (rule extract_frames_outside)
  show ?thesis
  proof (cases r1)
    case (Some e1)
    then show ?thesis using assms 1 o1 by (simp add: run_stages_def Let_def)
  next
    case None
    note r1 = this
    obtain r2 wb where 2: "process_frames_for_vr180 env settings cb ?fd ?pd wa = (r2, wb)"
      by (cases "process_frames_for_vr180 env settings cb ?fd ?pd wa")
    have o2: "files (rmtree temp_dir wb) = files (rmtree temp_dir w)"
      using process_frames_outside [OF 2] o1 by simp
    show ?thesis
    proof (cases r2)
      case (Some e2)
      then show ?thesis using assms 1 r1 2 o2 by (simp add: run_stages_def Let_def)
    next
      case None
      note r2 = this
      obtain r3 wc where 3: "generate_vr180_video env settings cb ?pd output_path wb = (r3, wc)"
        by (cases "generate_vr180_video env settings cb ?pd output_path wb")
      show ?thesis
      proof (cases r3)
        case (Some e3)
        then show ?thesis using assms 1 r1 2 r2 3 by (simp add: run_stages_def Let_def)
      next
        case None
        obtain r4 wd where 4: "generate_thumbnail env temp_dir wc = (r4, wd)"
          by (cases "generate_thumbnail env temp_dir wc")
        show ?thesis
          using assms 1 r1 2 r2 3 None 4
          by (cases r4) (simp_all add: run_stages_def Let_def)
      qed
    qed
  qed
qed



lemma run_stages_no_frames:
  "run_stages no_frames_env ''/out.mp4'' default_settings True ''/tmp/w'' empty_world
     = (Inl (Raised ValueError ''No processed frames found''), empty_world)"
  by (simp add: run_stages_def Let_def extract_frames_def no_frames_env_def sample_env_def
      enumerate_from0_def process_frames_for_vr180_def listdir_def generate_vr180_video_def
      empty_world_def)






text \<open>
  C3, as stated: after a run in which a stage raised, no output file exists at the
  destination path. When the thumbnail extraction raises, the encoder has already written
  the output file, and nothing removes it: the run reports failure and the file is there.
\<close>

theorem output_remains_counterexample:
  "fst (process_video thumbnail_fails_env ''/in.mp4'' ''/out.mp4'' default_settings True
          empty_world) = Inr (Failure ''ffmpeg error'')
   \<and> \<not> file_exists ''/out.mp4'' empty_world
   \<and> file_exists ''/out.mp4''
        (snd (process_video thumbnail_fails_env ''/in.mp4'' ''/out.mp4'' default_settings True
                empty_world))"
proof -
  have "\<not> file_exists ''/out.mp4'' empty_world"
    by (simp add: file_exists_def empty_world_def)
  then show ?thesis
    by (simp add: process_video_thumbnail_fails file_exists_def)
qed


text \<open>
  C3, amended: when the extraction, the frame processing, the encoding or the thumbnail
  extraction raises, nothing after it runs, the workspace is removed with all it holds and
  the result is a failure carrying the text of the error (not its class); the run is never
  reported as a success. When it is the extraction or the frame processing that raised, the
  files outside the workspace, the destination among them, are as before the call. (An
  error while reading the metadata is not a failure of the run: the metadata is then empty.)
\<close>

theorem process_video_failure:
  assumes "dependencies_available env" "mkdtemp env = Inr temp_dir"
    and "run_stages env output_path settings cb temp_dir w = (Inl e, w1)"
  shows "process_video env input_path output_path settings cb w
           = (Inr (Failure (message e)), rmtree temp_dir w1)
     \<and> (\<forall>p. under temp_dir p \<longrightarrow> \<not> file_exists p (rmtree temp_dir w1))
     \<and> ((extract_frames env cb (path_join temp_dir ''frames'') w = (Some e, w1)
            \<and> files (rmtree temp_dir w1) = files (rmtree temp_dir w))
       \<or> (\<exists>wa. extract_frames env cb (path_join temp_dir ''frames'') w = (None, wa)
            \<and> process_frames_for_vr180 env settings cb (path_join temp_dir ''frames'')
                 (path_join temp_dir ''processed_frames'') wa = (Some e, w1)
            \<and> files (rmtree temp_dir w1) = files (rmtree temp_dir w))
       \<or> (\<exists>wa wb. extract_frames env cb (path_join temp_dir ''frames'') w = (None, wa)
            \<and> process_frames_for_vr180 env settings cb (path_join temp_dir ''frames'')
                 (path_join temp_dir ''processed_frames'') wa = (None, wb)
            \<and> generate_vr180_video env settings cb (path_join temp_dir ''processed_frames'')
                 output_path wb = (Some e, w1))
       \<or> (\<exists>wa wb wc. extract_frames env cb (path_join temp_dir ''frames'') w = (None, wa)
            \<and> process_frames_for_vr180 env settings cb (path_join temp_dir ''frames'')
                 (path_join temp_dir ''processed_frames'') wa = (None, wb)
            \<and> generate_vr180_video env settings cb (path_join temp_dir ''processed_frames'')
                 output_path wb = (None, wc)
            \<and> generate_thumbnail env temp_dir wc = (Inl e, w1)))"
  using process_video_stage_error [OF assms] rmtree_removes [of temp_dir _ w1]
    run_stages_failure [OF assms(3)]
  by blast


theorem process_video_failure_witness:
  "dependencies_available no_frames_env \<and> mkdtemp no_frames_env = Inr ''/tmp/w''
   \<and> run_stages no_frames_env ''/out.mp4'' default_settings True ''/tmp/w'' empty_world
        = (Inl (Raised ValueError ''No processed frames found''), empty_world)
   \<and> process_video no_frames_env ''/in.mp4'' ''/out.mp4'' default_settings True empty_world
        = (Inr (Failure ''No processed frames found''), empty_world)"
proof -
  have d: "dependencies_available no_frames_env" "mkdtemp no_frames_env = Inr ''/tmp/w''"
    by (simp_all add: no_frames_env_def sample_env_def)
  have "process_video no_frames_env ''/in.mp4'' ''/out.mp4'' default_settings True empty_world
      = (Inr (Failure (message (Raised ValueError ''No processed frames found''))),
         rmtree ''/tmp/w'' empty_world)"
    using process_video_failure [OF d run_stages_no_frames] by blast
  then have "process_video no_frames_env ''/in.mp4'' ''/out.mp4'' default_settings True
      empty_world = (Inr (Failure ''No processed frames found''), empty_world)"
    by (simp add: rmtree_def empty_world_def)
  then show ?thesis using d run_stages_no_frames by simp
qed




section \<open>Progress reports\<close>

lemma for_each_io_append:
  "for_each_io (xs @ ys) body s =
     (case for_each_io xs body s of
        (Some e, s') \<Rightarrow> (Some e, s') | (None, s') \<Rightarrow> for_each_io ys body s')"
  by (induction xs arbitrary: s) (auto split: prod.splits option.splits)

lemma enumerate_snoc:
  "enumerate_from0 (xs @ [x]) = enumerate_from0 xs @ [(length xs, x)]"
  by (simp add: enumerate_from0_def)





















section \<open>Frame files in a run\<close>

text \<open>
  After an extraction into a directory that held nothing, the directory lists exactly the
  names of the extracted frames, whatever the order of the listing; so the frame processing,
  which sorts the listing, takes up to \<open>10\<^sup>6\<close> frames in the order of their indices.
\<close>

lemma str_nat_digits: "c \<in> set (str_nat n) \<Longrightarrow> \<exists>d < 10. c = digit_char d"
proof (induction n rule: str_nat.induct)
  case (1 n)
  show ?case
  proof (cases "n < 10")
    case True
    then show ?thesis using "1.prems" by (auto simp: str_nat_small)
  next
    case False
    then have "c \<in> set (str_nat (n div 10)) \<or> c = digit_char (n mod 10)"
      using "1.prems" by (auto simp: str_nat_step)
    then show ?thesis
    proof
      assume "c \<in> set (str_nat (n div 10))"
      then show ?thesis using "1.IH" False by simp
    next
      assume "c = digit_char (n mod 10)"
      moreover have "n mod 10 < 10" by simp
      ultimately show ?thesis by blast
    qed
  qed
qed

lemma digit_char_not_slash: "d < 10 \<Longrightarrow> digit_char d \<noteq> CHR ''/''"
proof
  assume "d < 10" "digit_char d = CHR ''/''"
  then have "of_char (CHR ''/'') = (48 + d :: nat)" using of_char_digit [of d] by simp
  then show False by simp
qed

lemma frame_name_no_slash: "CHR ''/'' \<notin> set (frame_name i)"
proof
  assume "CHR ''/'' \<in> set (frame_name i)"
  then have "CHR ''/'' \<in> set (str_nat i)"
    by (auto simp: frame_name_def zero_pad_def)
  then obtain d where "d < 10" "CHR ''/'' = digit_char d" using str_nat_digits by blast
  then show False using digit_char_not_slash [of d] by simp
qed

lemma frame_name_endswith: "endswith (frame_name i) ''.jpg''"
  by (simp add: endswith_def frame_name_def)

lemma under_filter_write:
  assumes "under d p"
  shows "filter (under d) (map fst (files (write_file p c w)))
           = p # filter (\<lambda>q. q \<noteq> p) (filter (under d) (map fst (files w)))"
proof -
  have "filter (under d) (map fst (filter (\<lambda>e. fst e \<noteq> p) fs))
          = filter (\<lambda>q. q \<noteq> p) (filter (under d) (map fst fs))"
    for fs :: "(string \<times> 'a pyfile) list"
    by (induction fs) auto
  then show ?thesis using assms by (simp add: write_file_def)
qed

lemma extract_step_paths:
  assumes "extract_step fc cb fd (k, x) w = (None, w1)"
  shows "filter (under fd) (map fst (files w1))
           = path_join fd (frame_name k)
               # filter (\<lambda>q. q \<noteq> path_join fd (frame_name k))
                   (filter (under fd) (map fst (files w)))"
proof -
  have "files w1 = files (write_file (path_join fd (frame_name k)) (ImageFile x) w)"
    using assms by (auto simp: extract_step_def Let_def report_def split: if_splits)
  then show ?thesis using under_filter_write [OF under_path_join, of fd "frame_name k"] by simp
qed

lemma extract_paths:
  assumes "\<forall>p \<in> set (map fst (files w)). \<not> under fd p"
    and "for_each_io (enumerate_from0 frames) (extract_step fc cb fd) w = (None, w1)"
  shows "distinct (filter (under fd) (map fst (files w1)))
       \<and> set (filter (under fd) (map fst (files w1)))
           = (\<lambda>i. path_join fd (frame_name i)) ` {0..<length frames}"
  using assms(2)
proof (induction frames arbitrary: w1 rule: rev_induct)
  case Nil
  then have "w1 = w" by (simp add: enumerate_from0_def)
  then show ?case using assms(1) by (simp add: filter_empty_conv)
next
  case (snoc x xs)
  obtain r0 w0 where 0: "for_each_io (enumerate_from0 xs) (extract_step fc cb fd) w = (r0, w0)"
    by (cases "for_each_io (enumerate_from0 xs) (extract_step fc cb fd) w")
  from snoc.prems have r0: "r0 = None"
    and last: "extract_step fc cb fd (length xs, x) w0 = (None, w1)"
    using 0 by (auto simp: enumerate_snoc for_each_io_append split: option.splits prod.splits)
  have IH: "distinct (filter (under fd) (map fst (files w0)))"
    "set (filter (under fd) (map fst (files w0)))
       = (\<lambda>i. path_join fd (frame_name i)) ` {0..<length xs}"
    using snoc.IH 0 r0 by simp_all
  define P0 where "P0 = filter (under fd) (map fst (files w0))"
  define p where "p = path_join fd (frame_name (length xs))"
  have new: "filter (under fd) (map fst (files w1)) = p # filter (\<lambda>q. q \<noteq> p) P0"
    using extract_step_paths [OF last] by (simp add: P0_def p_def)
  have d: "distinct (p # filter (\<lambda>q. q \<noteq> p) P0)"
    using IH(1) by (simp add: P0_def [symmetric])
  have "set (p # filter (\<lambda>q. q \<noteq> p) P0) = insert p (set P0)" by auto
  also have "\<dots> = insert p ((\<lambda>i. path_join fd (frame_name i)) ` {0..<length xs})"
    using IH(2) by (simp add: P0_def [symmetric])
  also have "\<dots> = (\<lambda>i. path_join fd (frame_name i)) ` {0..<length (xs @ [x])}"
    by (simp add: p_def atLeast0_lessThan_Suc)
  finally show ?case using d unfolding new by simp
qed

lemma under_drop:
  "under d p \<Longrightarrow> p = d @ ''/'' @ drop (length d + 1) p"
  by (metis under_def append_assoc append_take_drop_id)

lemma path_join_drop: "drop (Suc (length d)) (path_join d name) = name"
  by (simp add: path_join_def)

lemma listdir_alt:
  "listdir d w = map (drop (length d + 1))
     (filter (\<lambda>p. CHR ''/'' \<notin> set (drop (length d + 1) p)) (filter (under d) (map fst (files w))))"
  by (simp add: listdir_def conj_commute)

lemma extract_listing:
  assumes "\<forall>p \<in> set (map fst (files w)). \<not> under fd p"
    and "for_each_io (enumerate_from0 frames) (extract_step fc cb fd) w = (None, w1)"
  shows "distinct (listdir fd w1) \<and> set (listdir fd w1) = frame_name ` {0..<length frames}"
proof -
  let ?ps = "filter (under fd) (map fst (files w1))"
  have d: "distinct ?ps" and s: "set ?ps = (\<lambda>i. path_join fd (frame_name i)) ` {0..<length frames}"
    using extract_paths [OF assms] by simp_all
  have all: "filter (\<lambda>p. CHR ''/'' \<notin> set (drop (length fd + 1) p)) ?ps = ?ps"
  proof (rule filter_True)
    show "\<forall>p \<in> set ?ps. CHR ''/'' \<notin> set (drop (length fd + 1) p)"
      unfolding s using frame_name_no_slash by (auto simp: path_join_drop)
  qed
  have ld: "listdir fd w1 = map (drop (length fd + 1)) ?ps"
    unfolding listdir_alt all ..
  have inj: "inj_on (drop (length fd + 1)) (set ?ps)"
  proof (rule inj_onI)
    fix p q assume "p \<in> set ?ps" "q \<in> set ?ps" "drop (length fd + 1) p = drop (length fd + 1) q"
    then show "p = q" using under_drop [of fd p] under_drop [of fd q] by simp
  qed
  have "distinct (listdir fd w1)" unfolding ld using d inj by (simp add: distinct_map)
  moreover have "set (listdir fd w1) = frame_name ` {0..<length frames}"
  proof -
    have "set (listdir fd w1) = drop (length fd + 1) ` set ?ps"
      unfolding ld by simp
    also have "\<dots> = drop (length fd + 1)
                    ` ((\<lambda>i. path_join fd (frame_name i)) ` {0..<length frames})"
      by (simp only: s)
    also have "\<dots> = frame_name ` {0..<length frames}"
      by (simp add: image_image path_join_drop)
    finally show ?thesis .
  qed
  ultimately show ?thesis by simp
qed

lemma extracted_frames_processed_in_order:
  assumes fresh: "\<forall>p \<in> set (map fst (files w)). \<not> under frames_dir p"
    and run: "extract_frames env cb frames_dir w = (None, w1)"
    and n: "length (cap_frames env) \<le> 10 ^ 6"
  shows "sort (filter (\<lambda>f. endswith f ''.jpg'') (listdir frames_dir w1))
           = map frame_name [0..<length (cap_frames env)]"
proof -
  have l: "distinct (listdir frames_dir w1)"
    "set (listdir frames_dir w1) = frame_name ` {0..<length (cap_frames env)}"
    using extract_listing [OF fresh, of "cap_frames env" "cap_frame_count env" cb w1] run
    by (simp_all add: extract_frames_def Let_def)
  have "filter (\<lambda>f. endswith f ''.jpg'') (listdir frames_dir w1) = listdir frames_dir w1"
    by (rule filter_True) (use l(2) frame_name_endswith in auto)
  then show ?thesis using sort_frame_names [OF n _ l(1)] l(2) by simp
qed

end
